theory Spec2Isabelle
  imports Main "HOL-Library.AList"
begin

section \<open>Library functions the router calls\<close>

text \<open>
  Go strings are byte strings; a \<^typ>\<open>string\<close> is a list of bytes. \<open>strings.ToLower\<close> is
  modelled on ASCII: the letters A to Z are mapped to a to z and every other byte is kept
  (host names and route domains are ASCII).
\<close>

definition upper_letters :: string where
  "upper_letters = ''ABCDEFGHIJKLMNOPQRSTUVWXYZ''"

definition lower_letters :: string where
  "lower_letters = ''abcdefghijklmnopqrstuvwxyz''"

definition lower_char :: "char \<Rightarrow> char" where
  "lower_char c = (case map_of (zip upper_letters lower_letters) c of Some l \<Rightarrow> l | None \<Rightarrow> c)"

definition ToLower :: "string \<Rightarrow> string" where
  "ToLower s = map lower_char s"

text \<open>
  \<open>strings.SplitN(s, sep, n)\<close> for a one-byte separator and \<open>n \<ge> 0\<close>: at most \<open>n\<close>
  pieces, the last one holding the unsplit remainder; \<open>n = 0\<close> gives no piece at all.
\<close>

fun SplitN :: "string \<Rightarrow> char \<Rightarrow> nat \<Rightarrow> string list" where
  "SplitN s sep 0 = []"
| "SplitN s sep (Suc 0) = [s]"
| "SplitN s sep (Suc (Suc n)) =
     (if sep \<in> set s
      then takeWhile (\<lambda>c. c \<noteq> sep) s # SplitN (tl (dropWhile (\<lambda>c. c \<noteq> sep) s)) sep (Suc n)
      else [s])"

text \<open>\<open>strings.Join(a, sep)\<close>.\<close>

fun Join :: "string list \<Rightarrow> string \<Rightarrow> string" where
  "Join [] sep = []"
| "Join [x] sep = x"
| "Join (x # y # ys) sep = x @ sep @ Join (y # ys) sep"

section \<open>The route table (router/http.go)\<close>

text \<open>
  Pointers are addresses. A service object is shared by the routes that point to it and
  its \<open>refs\<close> field is mutated in place, so services live in a store
  (\<open>service_heap\<close>) and routes hold the address. A route object is never changed once
  it is stored, so the maps hold the object itself together with the address it was
  allocated at (\<open>addr\<close>): two route objects are the same object when their addresses agree.
  A Go map is an association list with one pair per key, read with \<^const>\<open>map_of\<close> and
  written with \<^const>\<open>AList.update\<close> and \<^const>\<open>AList.delete\<close>.
\<close>

type_synonym ptr = nat

datatype Certificate = Certificate string string

datatype Event = Event string string

datatype error = ErrNotFound | ErrX509KeyPair | ErrNewServiceSet

record ServiceSet =
  Addrs :: "string list"
  ss_closed :: bool

record HTTPRoute =
  Domain :: string
  Service :: string
  TLSCert :: string
  TLSKey :: string
  Sticky :: bool

record Route =
  ID :: string
  Config :: HTTPRoute

record httpRoute = HTTPRoute +
  addr :: ptr
  keypair :: "Certificate option"
  service :: ptr

record httpService =
  name :: string
  ss :: ServiceSet
  refs :: int
  cookieKey :: string

record HTTPListener =
  domains :: "(string \<times> httpRoute) list"
  routes :: "(string \<times> httpRoute) list"
  services :: "(string \<times> ptr) list"
  closed :: bool
  listener_cookieKey :: string
  service_heap :: "ptr \<Rightarrow> httpService"
  next_service :: ptr
  next_route :: ptr
  sent :: "Event list"

text \<open>
  \<open>HTTPListener.Start\<close>: empty maps, and a zero cookie key when none was injected.
\<close>

definition Start :: "string option \<Rightarrow> HTTPListener" where
  "Start key =
     \<lparr>domains = [], routes = [], services = [], closed = False,
      listener_cookieKey = (case key of None \<Rightarrow> replicate 32 (CHR 0x00) | Some k \<Rightarrow> k),
      service_heap = (\<lambda>p. \<lparr>name = [], ss = \<lparr>Addrs = [], ss_closed = False\<rparr>, refs = 0, cookieKey = []\<rparr>),
      next_service = 0, next_route = 0, sent = []\<rparr>"

definition ServiceSet_Close :: "ServiceSet \<Rightarrow> ServiceSet" where
  "ServiceSet_Close s = s\<lparr>ss_closed := True\<rparr>"

text \<open>
  The block both handlers run on a service pointer:
  \<^verbatim>\<open>service.refs--; if service.refs <= 0 { service.ss.Close(); delete(h.l.services, service.name) }\<close>
\<close>

definition unref :: "ptr \<Rightarrow> HTTPListener \<Rightarrow> HTTPListener" where
  "unref p l =
     (let svc = (service_heap l p)\<lparr>refs := refs (service_heap l p) - 1\<rparr> in
      if refs svc \<le> 0
      then l\<lparr>service_heap := (service_heap l)(p := svc\<lparr>ss := ServiceSet_Close (ss svc)\<rparr>),
             services := AList.delete (name svc) (services l)\<rparr>
      else l\<lparr>service_heap := (service_heap l)(p := svc)\<rparr>)"

text \<open>
  \<open>httpSyncHandler.Set\<close>, first part (before the lock): the key pair is parsed when both PEM
  fields are present, and the PEM strings are cleared. \<open>X509KeyPair\<close> is the result of
  \<open>tls.X509KeyPair\<close>, \<open>None\<close> when it returns an error.
\<close>

definition Set_keypair ::
  "(string \<Rightarrow> string \<Rightarrow> Certificate option) \<Rightarrow> HTTPRoute \<Rightarrow> error + (HTTPRoute \<times> Certificate option)" where
  "Set_keypair X509KeyPair route =
     (if TLSCert route \<noteq> [] \<and> TLSKey route \<noteq> []
      then (case X509KeyPair (TLSCert route) (TLSKey route) of
              None \<Rightarrow> Inl ErrX509KeyPair
            | Some kp \<Rightarrow> Inr (route\<lparr>TLSCert := [], TLSKey := []\<rparr>, Some kp))
      else Inr (route, None))"

text \<open>
  Second part: \<^verbatim>\<open>service := h.l.services[r.Service]\<close> and the branch that releases a
  service whose name differs from \<open>r.Service\<close>.
\<close>

definition Set_lookup :: "string \<Rightarrow> HTTPListener \<Rightarrow> ptr option \<times> HTTPListener" where
  "Set_lookup svc_name l =
     (case map_of (services l) svc_name of
        None \<Rightarrow> (None, l)
      | Some p \<Rightarrow>
          if name (service_heap l p) \<noteq> svc_name then (None, unref p l) else (Some p, l))"

text \<open>
  Third part: a service that is not there is created with \<open>refs = 0\<close> and stored under its
  name. \<open>NewServiceSet\<close> is the discovery client's answer, \<open>None\<close> for an error.
\<close>

definition Set_create ::
  "(string \<Rightarrow> ServiceSet option) \<Rightarrow> string \<Rightarrow> ptr option \<Rightarrow> HTTPListener \<Rightarrow> error + (ptr \<times> HTTPListener)" where
  "Set_create NewServiceSet svc_name svc l =
     (case svc of
        Some p \<Rightarrow> Inr (p, l)
      | None \<Rightarrow>
          (case NewServiceSet svc_name of
             None \<Rightarrow> Inl ErrNewServiceSet
           | Some s \<Rightarrow>
               Inr (next_service l,
                    l\<lparr>service_heap := (service_heap l)(next_service l :=
                         \<lparr>name = svc_name, ss = s, refs = 0, cookieKey = listener_cookieKey l\<rparr>),
                      next_service := Suc (next_service l),
                      services := AList.update svc_name (next_service l) (services l)\<rparr>)))"

text \<open>
  Last part: \<^verbatim>\<open>service.refs++; r.service = service; h.l.routes[data.ID] = r;
  h.l.domains[strings.ToLower(r.Domain)] = r\<close> and the event. The route object is the one
  allocated at the top of \<open>Set\<close>; its address is taken from \<open>next_route\<close>.
\<close>

definition Set_link ::
  "string \<Rightarrow> HTTPRoute \<Rightarrow> Certificate option \<Rightarrow> ptr \<Rightarrow> HTTPListener \<Rightarrow> HTTPListener" where
  "Set_link rid r kp p l =
     (let r' = \<lparr>Domain = Domain r, Service = Service r, TLSCert = TLSCert r, TLSKey = TLSKey r,
                Sticky = Sticky r, addr = next_route l, keypair = kp, service = p\<rparr>
      in l\<lparr>service_heap := (service_heap l)(p := (service_heap l p)\<lparr>refs := refs (service_heap l p) + 1\<rparr>),
           routes := AList.update rid r' (routes l),
           domains := AList.update (ToLower (Domain r)) r' (domains l),
           next_route := Suc (next_route l),
           sent := sent l @ [Event ''set'' (Domain r)]\<rparr>)"

definition httpSyncHandler_Set ::
  "(string \<Rightarrow> string \<Rightarrow> Certificate option) \<Rightarrow> (string \<Rightarrow> ServiceSet option) \<Rightarrow> Route \<Rightarrow>
   HTTPListener \<Rightarrow> error option \<times> HTTPListener" where
  "httpSyncHandler_Set X509KeyPair NewServiceSet data l =
     (case Set_keypair X509KeyPair (Config data) of
        Inl err \<Rightarrow> (Some err, l)
      | Inr (r, kp) \<Rightarrow>
          if closed l then (None, l)
          else
            (case Set_lookup (Service r) l of
               (svc, l1) \<Rightarrow>
                 (case Set_create NewServiceSet (Service r) svc l1 of
                    Inl err \<Rightarrow> (Some err, l1)
                  | Inr (p, l2) \<Rightarrow> (None, Set_link (ID data) r kp p l2))))"

text \<open>\<open>httpSyncHandler.Remove\<close>.\<close>

definition httpSyncHandler_Remove :: "string \<Rightarrow> HTTPListener \<Rightarrow> error option \<times> HTTPListener" where
  "httpSyncHandler_Remove rid l =
     (if closed l then (None, l)
      else
        (case map_of (routes l) rid of
           None \<Rightarrow> (Some ErrNotFound, l)
         | Some r \<Rightarrow>
             (let l1 = unref (service r) l
              in (None, l1\<lparr>routes := AList.delete rid (routes l1),
                           domains := AList.delete (Domain r) (domains l1),
                           sent := sent l1 @ [Event ''remove'' rid]\<rparr>))))"

text \<open>
  \<open>HTTPListener.findRouteForHost\<close>. The loop \<^verbatim>\<open>for i := len(d); i > 0; i--\<close> is
  \<open>wildcards\<close>, counting \<open>i\<close> down; \<open>d[len(d)-i:]\<close> is \<^term>\<open>drop (length d - i) d\<close>.
\<close>

fun wildcards :: "(string \<times> httpRoute) list \<Rightarrow> string list \<Rightarrow> nat \<Rightarrow> httpRoute option" where
  "wildcards dm d 0 = None"
| "wildcards dm d (Suc i) =
     (case map_of dm (''*.'' @ Join (drop (length d - Suc i) d) ''.'') of
        Some backend \<Rightarrow> Some backend
      | None \<Rightarrow> wildcards dm d i)"

definition findRouteForHost :: "HTTPListener \<Rightarrow> string \<Rightarrow> httpRoute option" where
  "findRouteForHost s host0 =
     (let host = ToLower host0 in
      case map_of (domains s) host of
        Some backend \<Rightarrow> Some backend
      | None \<Rightarrow> (let d = SplitN host (CHR ''.'') 5 in wildcards (domains s) d (length d)))"

text \<open>
  \<open>HTTPListener.Close\<close>: every service's discovery handle is closed and the listener is
  marked closed (the sockets and the sync loop are outside the model).
\<close>

definition HTTPListener_Close :: "HTTPListener \<Rightarrow> HTTPListener" where
  "HTTPListener_Close s =
     (fold (\<lambda>(n, p) l. l\<lparr>service_heap := (service_heap l)(p :=
               (service_heap l p)\<lparr>ss := ServiceSet_Close (ss (service_heap l p))\<rparr>)\<rparr>)
        (services s) s)\<lparr>closed := True\<rparr>"

text \<open>
  The states of the route table: what \<open>Start\<close> builds, and what the sync handler's \<open>Set\<close>
  and \<open>Remove\<close> and the listener's \<open>Close\<close> make of a state, whatever the certificate parser
  and the discovery client answer.
\<close>

inductive reachable :: "HTTPListener \<Rightarrow> bool" where
  Start: "reachable (Start key)"
| Set: "reachable l \<Longrightarrow> reachable (snd (httpSyncHandler_Set X509KeyPair NewServiceSet data l))"
| Remove: "reachable l \<Longrightarrow> reachable (snd (httpSyncHandler_Remove rid l))"
| Close: "reachable l \<Longrightarrow> reachable (HTTPListener_Close l)"

text \<open>
  The keys a lookup reads, in the order it reads them: \<open>tail_keys d\<close> lists \<open>*.\<close> followed by
  the pieces of \<open>d\<close> joined, then by the pieces but the first, and so on;
  \<open>first_present\<close> is the entry of the first key in a list that the map holds.
\<close>

primrec first_present :: "(string \<times> 'v) list \<Rightarrow> string list \<Rightarrow> 'v option" where
  "first_present dm [] = None"
| "first_present dm (k # ks) =
     (case map_of dm k of Some v \<Rightarrow> Some v | None \<Rightarrow> first_present dm ks)"

primrec tail_keys :: "string list \<Rightarrow> string list" where
  "tail_keys [] = []"
| "tail_keys (x # xs) = (''*.'' @ Join (x # xs) ''.'') # tail_keys xs"


text \<open>
  Every route object in the domains map was allocated before \<open>next_route\<close>, and no two
  entries hold the same object.
\<close>

definition domains_inv :: "HTTPListener \<Rightarrow> bool" where
  "domains_inv l \<longleftrightarrow>
     (\<forall>kr \<in> set (domains l). addr (snd kr) < next_route l) \<and>
     distinct (map (\<lambda>kr. addr (snd kr)) (domains l))"


text \<open>
  Inputs for the examples: a certificate parser that is never asked (the routes carry no PEM
  material), a discovery client that answers every name with an empty, open service set,
  and a route without TLS or stickiness.
\<close>

definition no_keypair :: "string \<Rightarrow> string \<Rightarrow> Certificate option" where
  "no_keypair cert key = None"

definition discoverd_up :: "string \<Rightarrow> ServiceSet option" where
  "discoverd_up n = Some \<lparr>Addrs = [], ss_closed = False\<rparr>"

definition example_route :: "string \<Rightarrow> string \<Rightarrow> string \<Rightarrow> Route" where
  "example_route rid d n =
     \<lparr>ID = rid, Config = \<lparr>Domain = d, Service = n, TLSCert = [], TLSKey = [], Sticky = False\<rparr>\<rparr>"


section \<open>Requests, cookies and the libraries behind them\<close>

text \<open>
  What the handlers read of an \<open>http.Request\<close>. \<open>Header\<close> and \<open>URL_Query\<close> are Go maps from a
  key to its values (header keys in their canonical form, as \<open>net/http\<close> stores them);
  \<open>Cookies\<close> are the cookies of the request in the order \<open>net/http\<close> parses them.
\<close>

record Cookie =
  Name :: string
  Value :: string
  Path :: string

record Request =
  Method :: string
  Host :: string
  URL_Path :: string
  URL_Query :: "(string \<times> string list) list"
  Header :: "(string \<times> string list) list"
  Cookies :: "Cookie list"

text \<open>\<open>Header.Get\<close> and \<open>url.Values.Get\<close>: the first value of the key, or the empty string.\<close>

definition Values_Get :: "(string \<times> string list) list \<Rightarrow> string \<Rightarrow> string" where
  "Values_Get h k = (case map_of h k of None \<Rightarrow> [] | Some [] \<Rightarrow> [] | Some (v # vs) \<Rightarrow> v)"

definition Header_Set :: "(string \<times> string list) list \<Rightarrow> string \<Rightarrow> string \<Rightarrow> (string \<times> string list) list" where
  "Header_Set h k v = AList.update k [v] h"

definition Header_Del :: "(string \<times> string list) list \<Rightarrow> string \<Rightarrow> (string \<times> string list) list" where
  "Header_Del h k = AList.delete k h"

text \<open>\<open>Request.Cookie(name)\<close>: the first cookie of that name, \<open>None\<close> for \<open>ErrNoCookie\<close>.\<close>

definition Request_Cookie :: "Request \<Rightarrow> string \<Rightarrow> Cookie option" where
  "Request_Cookie req n = find (\<lambda>c. Name c = n) (Cookies req)"

text \<open>
  The vendored libraries the cookie code calls are parameters of the model, in the argument
  order of the calls: \<open>secretbox.Seal(out, message, nonce, key)\<close> appends the box to \<open>out\<close>,
  so \<open>secretbox_Seal\<close> gives the box; \<open>secretbox.Open(nil, box, nonce, key)\<close> gives the
  message, or \<open>None\<close> when it answers \<open>ok = false\<close>; \<open>base64.StdEncoding.DecodeString\<close> gives
  \<open>None\<close> for an error.
\<close>

record lib =
  secretbox_Seal :: "string \<Rightarrow> string \<Rightarrow> string \<Rightarrow> string"
  secretbox_Open :: "string \<Rightarrow> string \<Rightarrow> string \<Rightarrow> string option"
  base64_EncodeToString :: "string \<Rightarrow> string"
  base64_DecodeString :: "string \<Rightarrow> string option"

section \<open>Backend selection (router/http.go)\<close>

datatype panic = Panic

definition stickyCookie :: string where
  "stickyCookie = ''_backend''"

definition hdrUseStickySessions :: string where
  "hdrUseStickySessions = ''Flynn-Use-Sticky-Sessions''"

text \<open>
  \<open>httpService.pickBackend\<close>. \<open>rnd\<close> is the generator's draw; \<open>random.Math.Intn(n)\<close> is
  \<open>rnd mod n\<close>, some index below \<open>n\<close>.
\<close>

definition pickBackend :: "nat \<Rightarrow> httpService \<Rightarrow> string" where
  "pickBackend rnd s =
     (let addrs = Addrs (ss s) in
      if length addrs = 0 then [] else addrs ! (rnd mod length addrs))"

text \<open>
  \<open>httpService.pickNewBackendSticky\<close>. \<open>rand\<close> is what \<open>io.ReadFull(rand.Reader, nonce[:])\<close>
  leaves in the 24-byte array, \<open>None\<close> when it returns an error (the code panics).
\<close>

definition pickNewBackendSticky ::
  "lib \<Rightarrow> nat \<Rightarrow> string option \<Rightarrow> httpService \<Rightarrow> panic + (string \<times> Cookie option)" where
  "pickNewBackendSticky L rnd rand s =
     (let backend = pickBackend rnd s in
      if backend = [] then Inr ([], None)
      else
        (case rand of
           None \<Rightarrow> Inl Panic
         | Some nonce \<Rightarrow>
             (let out = nonce @ secretbox_Seal L backend nonce (cookieKey s)
              in Inr (backend,
                      Some \<lparr>Name = stickyCookie, Value = base64_EncodeToString L out, Path = ''/''\<rparr>))))"

text \<open>The loop \<^verbatim>\<open>for _, a := range s.ss.Addrs() { if a == addr { ok = true; break } }\<close>.\<close>

primrec addr_listed :: "string list \<Rightarrow> string \<Rightarrow> bool" where
  "addr_listed [] a = False"
| "addr_listed (x # xs) a = (if x = a then True else addr_listed xs a)"

text \<open>\<open>httpService.pickBackendSticky\<close>.\<close>

definition pickBackendSticky ::
  "lib \<Rightarrow> nat \<Rightarrow> string option \<Rightarrow> Request \<Rightarrow> httpService \<Rightarrow> panic + (string \<times> Cookie option)" where
  "pickBackendSticky L rnd rand req s =
     (case Request_Cookie req stickyCookie of
        None \<Rightarrow> pickNewBackendSticky L rnd rand s
      | Some cookie \<Rightarrow>
          (case base64_DecodeString L (Value cookie) of
             None \<Rightarrow> pickNewBackendSticky L rnd rand s
           | Some data \<Rightarrow>
               if length data < 24 then pickNewBackendSticky L rnd rand s
               else
                 (case secretbox_Open L (drop 24 data) (take 24 data) (cookieKey s) of
                    None \<Rightarrow> pickNewBackendSticky L rnd rand s
                  | Some res \<Rightarrow>
                      if \<not> addr_listed (Addrs (ss s)) res then pickNewBackendSticky L rnd rand s
                      else Inr (res, None))))"

text \<open>
  The sticky cookie codec in the words of the specification: \<open>seal\<close> encodes the nonce
  followed by the box of the address, \<open>open_cookie\<close> decodes, refuses less than a nonce,
  splits the nonce off and opens the rest.
\<close>

definition seal :: "lib \<Rightarrow> string \<Rightarrow> string \<Rightarrow> string \<Rightarrow> string" where
  "seal L key nonce a = base64_EncodeToString L (nonce @ secretbox_Seal L a nonce key)"

definition open_cookie :: "lib \<Rightarrow> string \<Rightarrow> string \<Rightarrow> string option" where
  "open_cookie L key v =
     (case base64_DecodeString L v of
        None \<Rightarrow> None
      | Some data \<Rightarrow>
          if length data < 24 then None else secretbox_Open L (drop 24 data) (take 24 data) key)"

section \<open>Serving a request (router/http.go)\<close>

text \<open>
  \<open>fail(w, code, msg)\<close> writes the \<open>Content-Length\<close> of the message, the status and the
  message. A request is either answered that way or goes on to the chosen backend; the
  exchange with the backend is outside the model.
\<close>

record Response =
  StatusCode :: nat
  ContentLength :: nat
  Body :: string

definition fail :: "nat \<Rightarrow> string \<Rightarrow> Response" where
  "fail code msg = \<lparr>StatusCode = code, ContentLength = length msg, Body = msg\<rparr>"

datatype served = Failed Response | Forwarded string "Cookie option" Request

text \<open>
  \<open>httpService.ServeHTTP\<close> up to the choice of the backend. \<open>now\<close> and \<open>uuid\<close> are the values
  the clock and \<open>random.UUID()\<close> give for the two request headers.
\<close>

definition httpService_ServeHTTP ::
  "lib \<Rightarrow> nat \<Rightarrow> string option \<Rightarrow> string \<Rightarrow> string \<Rightarrow> httpService \<Rightarrow> Request \<Rightarrow> panic + served" where
  "httpService_ServeHTTP L rnd rand now uuid s req0 =
     (let req = req0\<lparr>Header := Header_Set (Header_Set (Header req0) ''X-Request-Start'' now)
                                   ''X-Request-Id'' uuid\<rparr>
      in case (if Values_Get (Header req) hdrUseStickySessions = ''true''
               then (case pickBackendSticky L rnd rand
                            (req\<lparr>Header := Header_Del (Header req) hdrUseStickySessions\<rparr>) s of
                       Inl p \<Rightarrow> Inl p
                     | Inr (backend, c) \<Rightarrow>
                         Inr (backend, c, req\<lparr>Header := Header_Del (Header req) hdrUseStickySessions\<rparr>))
               else Inr (pickBackend rnd s, None, req)) of
           Inl p \<Rightarrow> Inl p
         | Inr (backend, c, req') \<Rightarrow>
             if backend = [] then Inr (Failed (fail 503 ''Service Unavailable''))
             else Inr (Forwarded backend c req'))"

text \<open>\<open>HTTPListener.ServeHTTP\<close>.\<close>

definition HTTPListener_ServeHTTP ::
  "lib \<Rightarrow> nat \<Rightarrow> string option \<Rightarrow> string \<Rightarrow> string \<Rightarrow> HTTPListener \<Rightarrow> Request \<Rightarrow> panic + served" where
  "HTTPListener_ServeHTTP L rnd rand now uuid s req =
     (case findRouteForHost s (Host req) of
        None \<Rightarrow> Inr (Failed (fail 404 ''Not Found''))
      | Some r \<Rightarrow>
          httpService_ServeHTTP L rnd rand now uuid (service_heap s (service r))
            (if Sticky r
             then req\<lparr>Header := Header_Set (Header req) hdrUseStickySessions ''true''\<rparr>
             else req))"


section \<open>The management API's authentication (controller/controller.go)\<close>

text \<open>\<open>strings.Contains(s, substr)\<close>.\<close>

primrec Contains :: "string \<Rightarrow> string \<Rightarrow> bool" where
  "Contains [] sub = (sub = [])"
| "Contains (c # cs) sub = (take (length sub) (c # cs) = sub \<or> Contains cs sub)"

text \<open>
  \<open>parseBasicAuth\<close>: the user name, the password and the error, \<open>None\<close> for \<open>nil\<close>.
  \<open>DecodeString\<close> is \<open>base64.StdEncoding.DecodeString\<close>, \<open>None\<close> for an error.
\<close>

definition parseBasicAuth ::
  "(string \<Rightarrow> string option) \<Rightarrow> (string \<times> string list) list \<Rightarrow> string \<times> string \<times> string option" where
  "parseBasicAuth DecodeString h =
     (let s = SplitN (Values_Get h ''Authorization'') (CHR '' '') 2 in
      if length s \<noteq> 2 then ([], [], Some ''failed to parse authentication string '')
      else if s ! 0 \<noteq> ''Basic''
      then ([], [], Some (''authorization scheme is '' @ s ! 0 @ '', not Basic ''))
      else
        (case DecodeString (s ! 1) of
           None \<Rightarrow> ([], [], Some ''failed to parse base64 basic credentials'')
         | Some c \<Rightarrow>
             (let t = SplitN c (CHR '':'') 2 in
              if length t \<noteq> 2 then ([], [], Some ''failed to parse basic credentials'')
              else (t ! 0, t ! 1, None))))"

text \<open>\<open>subtle.ConstantTimeCompare\<close>: 1 for equal byte strings, 0 otherwise.\<close>

definition ConstantTimeCompare :: "string \<Rightarrow> string \<Rightarrow> int" where
  "ConstantTimeCompare x y = (if x = y then 1 else 0)"

text \<open>
  A response writer is the status written so far, \<open>None\<close> before the first
  \<open>WriteHeader\<close>; a later \<open>WriteHeader\<close> changes nothing.
\<close>

definition WriteHeader :: "nat \<Rightarrow> nat option \<Rightarrow> nat option" where
  "WriteHeader code w = (case w of None \<Rightarrow> Some code | Some c \<Rightarrow> Some c)"

datatype handled = Returned "nat option" | ServedByMain "nat option"

text \<open>
  \<open>muxHandler\<close>'s handler function. \<open>corsHandler\<close> is the handler \<open>cors.Allow\<close> built, a
  parameter (its package is not among the sources): what it does to the response writer.
  The handler either returns with the writer as it then is, or hands writer and request to
  \<open>main\<close>.
\<close>

definition muxHandler ::
  "(string \<Rightarrow> string option) \<Rightarrow> (Request \<Rightarrow> nat option \<Rightarrow> nat option) \<Rightarrow> string \<Rightarrow> Request \<Rightarrow>
   handled" where
  "muxHandler DecodeString corsHandler authKey r =
     (let w = corsHandler r None in
      if URL_Path r = ''/ping'' \<or> Method r = ''OPTIONS'' then Returned (WriteHeader 200 w)
      else
        (let password0 = fst (snd (parseBasicAuth DecodeString (Header r)));
             password =
               (if password0 = [] \<and> Contains (Values_Get (Header r) ''Accept'') ''text/event-stream''
                then Values_Get (URL_Query r) ''key'' else password0)
         in if length password \<noteq> length authKey \<or> ConstantTimeCompare password authKey \<noteq> 1
            then Returned (WriteHeader 401 w)
            else ServedByMain w))"


text \<open>
  More inputs for the examples. \<open>example_lib\<close> stands in for the libraries: its box is the
  key, the nonce and the message one after the other, opened only under that key and nonce,
  and its base64 is the identity. \<open>example_cors\<close> answers a preflight request with 200 and
  leaves every other response writer as it is.
\<close>

definition example_lib :: lib where
  "example_lib =
     \<lparr>secretbox_Seal = (\<lambda>m n k. k @ n @ m),
      secretbox_Open = (\<lambda>box n k.
         if take (length k + length n) box = k @ n then Some (drop (length k + length n) box)
         else None),
      base64_EncodeToString = (\<lambda>x. x),
      base64_DecodeString = (\<lambda>x. Some x)\<rparr>"

definition example_key :: string where
  "example_key = replicate 32 (CHR ''k'')"

definition example_nonce :: string where
  "example_nonce = replicate 24 (CHR ''n'')"

definition example_service :: "string list \<Rightarrow> httpService" where
  "example_service as =
     \<lparr>name = ''web'', ss = \<lparr>Addrs = as, ss_closed = False\<rparr>, refs = 1, cookieKey = example_key\<rparr>"

definition example_request :: "string \<Rightarrow> string \<Rightarrow> string \<Rightarrow> Cookie list \<Rightarrow> Request" where
  "example_request m h p cs =
     \<lparr>Method = m, Host = h, URL_Path = p, URL_Query = [], Header = [], Cookies = cs\<rparr>"

definition example_cors :: "Request \<Rightarrow> nat option \<Rightarrow> nat option" where
  "example_cors r w =
     (if Method r = ''OPTIONS'' \<and> Values_Get (Header r) ''Access-Control-Request-Method'' \<noteq> []
      then WriteHeader 200 w else w)"


section \<open>Properties of the library functions\<close>

lemma lower_char_dot: "lower_char c = CHR ''.'' \<longleftrightarrow> c = CHR ''.''"
proof
  assume h: "lower_char c = CHR ''.''"
  show "c = CHR ''.''"
  proof (cases "map_of (zip upper_letters lower_letters) c")
    case None
    then show ?thesis using h by (simp add: lower_char_def)
  next
    case (Some l)
    then have "l \<in> set lower_letters" by (meson in_set_zipE map_of_SomeD)
    moreover have "l = CHR ''.''" using h Some by (simp add: lower_char_def)
    ultimately show ?thesis by (simp add: lower_letters_def)
  qed
qed (simp add: lower_char_def upper_letters_def lower_letters_def)

lemma ToLower_append: "ToLower (xs @ ys) = ToLower xs @ ToLower ys"
  by (simp add: ToLower_def)

lemma ToLower_dot_Cons: "ToLower (CHR ''.'' # xs) = CHR ''.'' # ToLower xs"
  by (simp add: ToLower_def lower_char_dot)

lemma ToLower_star_Cons: "ToLower (CHR ''*'' # xs) = CHR ''*'' # ToLower xs"
  by (simp add: ToLower_def lower_char_def upper_letters_def lower_letters_def)

lemma ToLower_star_dot: "ToLower (''*.'' @ xs) = ''*.'' @ ToLower xs"
  by (simp add: ToLower_def lower_char_def upper_letters_def lower_letters_def)

lemma dot_in_ToLower: "CHR ''.'' \<in> set (ToLower xs) \<longleftrightarrow> CHR ''.'' \<in> set xs"
proof -
  have "\<And>c. (CHR ''.'' = lower_char c) = (c = CHR ''.'')"
    using lower_char_dot by metis
  then show ?thesis by (auto simp: ToLower_def image_iff)
qed

lemma SplitN_label:
  assumes "sep \<notin> set a"
  shows "SplitN (a @ sep # rest) sep (Suc (Suc n)) = a # SplitN rest sep (Suc n)"
proof -
  have "takeWhile (\<lambda>c. c \<noteq> sep) (a @ sep # rest) = a"
    using assms by (induction a) auto
  moreover have "dropWhile (\<lambda>c. c \<noteq> sep) (a @ sep # rest) = sep # rest"
    using assms by (induction a) auto
  ultimately show ?thesis by simp
qed

lemma SplitN_nonempty: "SplitN s sep (Suc n) \<noteq> []"
  by (induction s sep "Suc n" arbitrary: n rule: SplitN.induct) auto

lemma length_SplitN: "length (SplitN s sep n) \<le> n"
  by (induction s sep n rule: SplitN.induct) auto

lemma Join_Cons: "ys \<noteq> [] \<Longrightarrow> Join (x # ys) sep = x @ sep @ Join ys sep"
  by (cases ys) auto

lemma Join_SplitN: "Join (SplitN s sep (Suc n)) [sep] = s"
proof (induction s sep "Suc n" arbitrary: n rule: SplitN.induct)
  case (2 s sep)
  then show ?case by simp
next
  case (3 s sep n)
  show ?case
  proof (cases "sep \<in> set s")
    case True
    have "s = takeWhile (\<lambda>c. c \<noteq> sep) s @ dropWhile (\<lambda>c. c \<noteq> sep) s" by simp
    moreover have "dropWhile (\<lambda>c. c \<noteq> sep) s \<noteq> []" using True by (simp add: dropWhile_eq_Nil_conv)
    moreover have "hd (dropWhile (\<lambda>c. c \<noteq> sep) s) = sep"
      using True hd_dropWhile[of "\<lambda>c. c \<noteq> sep" s] by (simp add: dropWhile_eq_Nil_conv)
    ultimately have s: "s = takeWhile (\<lambda>c. c \<noteq> sep) s @ sep # tl (dropWhile (\<lambda>c. c \<noteq> sep) s)"
      by (metis list.collapse)
    have "Join (SplitN s sep (Suc (Suc n))) [sep] =
        takeWhile (\<lambda>c. c \<noteq> sep) s @ [sep] @ Join (SplitN (tl (dropWhile (\<lambda>c. c \<noteq> sep) s)) sep (Suc n)) [sep]"
      using True by (simp add: Join_Cons SplitN_nonempty)
    also have "\<dots> = takeWhile (\<lambda>c. c \<noteq> sep) s @ sep # tl (dropWhile (\<lambda>c. c \<noteq> sep) s)"
      using 3 True by simp
    finally show ?thesis using s by simp
  next
    case False
    then show ?thesis by simp
  qed
qed

lemma wildcards_tail_keys:
  "i \<le> length d \<Longrightarrow> wildcards dm d i = first_present dm (tail_keys (drop (length d - i) d))"
proof (induction i)
  case 0
  then show ?case by simp
next
  case (Suc i)
  then obtain x xs where dx: "drop (length d - Suc i) d = x # xs"
    by (cases "drop (length d - Suc i) d") auto
  have "drop (length d - i) d = drop 1 (drop (length d - Suc i) d)"
    using Suc.prems by (simp add: Suc_diff_Suc)
  then have xs: "drop (length d - i) d = xs" using dx by simp
  show ?case using Suc dx xs by (simp split: option.splits)
qed

lemma findRouteForHost_keys:
  "findRouteForHost s host =
     first_present (domains s) (ToLower host # tail_keys (SplitN (ToLower host) (CHR ''.'') 5))"
  by (simp add: findRouteForHost_def Let_def wildcards_tail_keys split: option.splits)


section \<open>Properties of the route table\<close>

subsection \<open>The domains map holds each route object under one key\<close>

lemma set_update_subset: "set (AList.update k v xs) \<subseteq> insert (k, v) (set xs)"
  by (induction xs) auto

lemma distinct_map_update_fresh:
  "distinct (map f xs) \<Longrightarrow> f (k, v) \<notin> f ` set xs \<Longrightarrow> distinct (map f (AList.update k v xs))"
proof (induction xs)
  case Nil
  then show ?case by simp
next
  case (Cons x xs)
  obtain k' v' where x: "x = (k', v')" by (cases x)
  show ?case
  proof (cases "k' = k")
    case True
    then show ?thesis using Cons.prems x by auto
  next
    case False
    have "f x \<notin> f ` set (AList.update k v xs)"
      using Cons.prems set_update_subset[of k v xs] by (auto simp: image_iff)
    then show ?thesis using False Cons x by auto
  qed
qed

lemma distinct_map_delete:
  "distinct (map f xs) \<Longrightarrow> distinct (map f (AList.delete k xs))"
  by (simp add: AList.delete_eq distinct_map_filter)

lemma unref_domains [simp]:
  "domains (unref p l) = domains l" "next_route (unref p l) = next_route l"
  "routes (unref p l) = routes l" "closed (unref p l) = closed l"
  by (simp_all add: unref_def Let_def)

lemma Set_lookup_domains:
  "Set_lookup n l = (svc, l1) \<Longrightarrow> domains l1 = domains l \<and> next_route l1 = next_route l \<and> routes l1 = routes l"
  by (auto simp: Set_lookup_def split: option.splits if_splits)

lemma Set_create_domains:
  "Set_create N n svc l = Inr (p, l2) \<Longrightarrow> domains l2 = domains l \<and> next_route l2 = next_route l \<and> routes l2 = routes l"
  by (auto simp: Set_create_def split: option.splits)

lemma Set_link_domains_inv:
  assumes "domains_inv l"
  shows "domains_inv (Set_link rid r kp p l)"
proof -
  let ?r = "\<lparr>Domain = Domain r, Service = Service r, TLSCert = TLSCert r, TLSKey = TLSKey r,
            Sticky = Sticky r, addr = next_route l, keypair = kp, service = p\<rparr>"
  let ?f = "\<lambda>kr :: string \<times> httpRoute. addr (snd kr)"
  have d: "domains (Set_link rid r kp p l) = AList.update (ToLower (Domain r)) ?r (domains l)"
    and n: "next_route (Set_link rid r kp p l) = Suc (next_route l)"
    by (simp_all add: Set_link_def Let_def)
  have fresh: "?f (ToLower (Domain r), ?r) \<notin> ?f ` set (domains l)"
    using assms by (auto simp: domains_inv_def)
  have "distinct (map ?f (AList.update (ToLower (Domain r)) ?r (domains l)))"
    using assms fresh by (intro distinct_map_update_fresh) (auto simp: domains_inv_def)
  moreover have "\<forall>kr \<in> set (AList.update (ToLower (Domain r)) ?r (domains l)). addr (snd kr) < Suc (next_route l)"
    using assms set_update_subset[of "ToLower (Domain r)" ?r "domains l"]
    by (fastforce simp: domains_inv_def)
  ultimately show ?thesis unfolding domains_inv_def d n by simp
qed

lemma domains_inv_cong:
  "domains l' = domains l \<Longrightarrow> next_route l' = next_route l \<Longrightarrow> domains_inv l \<Longrightarrow> domains_inv l'"
  by (simp add: domains_inv_def)

lemma Set_domains_inv:
  assumes "domains_inv l"
  shows "domains_inv (snd (httpSyncHandler_Set X N data l))"
proof (cases "Set_keypair X (Config data)")
  case (Inl e)
  then show ?thesis using assms by (simp add: httpSyncHandler_Set_def)
next
  case (Inr rk)
  obtain r kp where rk: "rk = (r, kp)" by (cases rk)
  obtain svc l1 where lk: "Set_lookup (Service r) l = (svc, l1)" by (cases "Set_lookup (Service r) l")
  have l1: "domains_inv l1"
    using Set_lookup_domains[OF lk] assms by (auto intro: domains_inv_cong)
  show ?thesis
  proof (cases "closed l")
    case True
    then show ?thesis using assms Inr rk by (simp add: httpSyncHandler_Set_def)
  next
    case False
    show ?thesis
    proof (cases "Set_create N (Service r) svc l1")
      case (Inl e)
      then show ?thesis using False Inr rk lk l1 by (simp add: httpSyncHandler_Set_def)
    next
      case (Inr pl)
      obtain p l2 where pl: "pl = (p, l2)" by (cases pl)
      have "domains_inv l2"
        using Set_create_domains[of N "Service r" svc l1 p l2] Inr pl l1
        by (auto intro: domains_inv_cong)
      then have "domains_inv (Set_link (ID data) r kp p l2)" by (rule Set_link_domains_inv)
      then show ?thesis
        using False \<open>Set_keypair X (Config data) = Inr rk\<close> rk lk Inr pl
        by (simp add: httpSyncHandler_Set_def)
    qed
  qed
qed

lemma domains_inv_delete:
  assumes "domains_inv l" "domains l' = AList.delete k (domains l)" "next_route l' = next_route l"
  shows "domains_inv l'"
proof -
  have "distinct (map (\<lambda>kr. addr (snd kr)) (AList.delete k (domains l)))"
    using assms(1) by (intro distinct_map_delete) (simp add: domains_inv_def)
  moreover have "set (AList.delete k (domains l)) \<subseteq> set (domains l)"
    by (auto simp: AList.delete_eq)
  ultimately show ?thesis using assms by (auto simp: domains_inv_def)
qed

lemma Remove_domains_inv:
  assumes "domains_inv l"
  shows "domains_inv (snd (httpSyncHandler_Remove rid l))"
proof (cases "closed l \<or> map_of (routes l) rid = None")
  case True
  then show ?thesis using assms by (auto simp: httpSyncHandler_Remove_def)
next
  case False
  then obtain r where r: "map_of (routes l) rid = Some r" and c: "\<not> closed l" by auto
  show ?thesis
    using assms
    by (rule domains_inv_delete[where k = "Domain r"])
       (simp_all add: httpSyncHandler_Remove_def r c Let_def)
qed

lemma fold_heap_domains:
  "domains (fold (\<lambda>(n, p) l. l\<lparr>service_heap := g l p\<rparr>) xs s) = domains s \<and>
   next_route (fold (\<lambda>(n, p) l. l\<lparr>service_heap := g l p\<rparr>) xs s) = next_route s"
  by (induction xs arbitrary: s) (auto simp: case_prod_beta)

lemma Close_domains_inv:
  "domains_inv l \<Longrightarrow> domains_inv (HTTPListener_Close l)"
  using fold_heap_domains[of "\<lambda>l p. (service_heap l)(p :=
               (service_heap l p)\<lparr>ss := ServiceSet_Close (ss (service_heap l p))\<rparr>)" "services l" l]
  by (simp add: HTTPListener_Close_def domains_inv_def)

lemma reachable_domains_inv: "reachable l \<Longrightarrow> domains_inv l"
proof (induction rule: reachable.induct)
  case (Start key)
  then show ?case by (simp add: domains_inv_def Start_def)
next
  case (Set l X N data)
  then show ?case by (simp add: Set_domains_inv)
next
  case (Remove l rid)
  then show ?case by (simp add: Remove_domains_inv)
next
  case (Close l)
  then show ?case by (simp add: Close_domains_inv)
qed

lemma domains_one_key:
  assumes "reachable l" "map_of (domains l) k1 = Some r" "map_of (domains l) k2 = Some r"
  shows "k1 = k2"
proof -
  let ?f = "\<lambda>kr :: string \<times> httpRoute. addr (snd kr)"
  have "inj_on ?f (set (domains l))"
    using reachable_domains_inv[OF assms(1)] by (simp add: domains_inv_def distinct_map)
  moreover have "(k1, r) \<in> set (domains l)" "(k2, r) \<in> set (domains l)"
    using assms by (auto dest: map_of_SomeD)
  ultimately have "(k1, r) = (k2, r)"
    using inj_onD[of ?f "set (domains l)" "(k1, r)" "(k2, r)"] by simp
  then show ?thesis by simp
qed


subsection \<open>Example states\<close>

lemmas example_defs =
  no_keypair_def discoverd_up_def example_route_def Start_def httpSyncHandler_Set_def
  httpSyncHandler_Remove_def Set_keypair_def Set_lookup_def Set_create_def Set_link_def unref_def
  ServiceSet_Close_def findRouteForHost_def ToLower_def lower_char_def upper_letters_def
  lower_letters_def Let_def

subsection \<open>Host lookup\<close>

lemma tail_keys_labels2:
  assumes "CHR ''.'' \<notin> set a" "CHR ''.'' \<notin> set b"
  shows "\<exists>ks. tail_keys (SplitN (a @ ''.'' @ b @ ''.'' @ rest) (CHR ''.'') 5) =
           (''*.'' @ a @ ''.'' @ b @ ''.'' @ rest) # (''*.'' @ b @ ''.'' @ rest) # (''*.'' @ rest) # ks"
proof -
  let ?ds = "SplitN rest (CHR ''.'') 3"
  have sp: "SplitN (a @ ''.'' @ b @ ''.'' @ rest) (CHR ''.'') 5 = a # b # ?ds"
    using assms SplitN_label[of "CHR ''.''" a "b @ ''.'' @ rest" 3]
      SplitN_label[of "CHR ''.''" b rest 2]
    by (simp add: eval_nat_numeral)
  have ne: "?ds \<noteq> []" using SplitN_nonempty[of rest "CHR ''.''" 2] by (simp add: eval_nat_numeral)
  have j: "Join ?ds ''.'' = rest" using Join_SplitN[of rest "CHR ''.''" 2] by (simp add: eval_nat_numeral)
  obtain d ds where ds: "?ds = d # ds" using ne by (cases ?ds) auto
  have jb: "Join (b # ?ds) ''.'' = b @ ''.'' @ rest" using Join_Cons[OF ne, of b "''.''"] j by simp
  have ja: "Join (a # b # ?ds) ''.'' = a @ ''.'' @ b @ ''.'' @ rest" using jb by simp
  have "tail_keys (a # b # ?ds) =
      (''*.'' @ Join (a # b # ?ds) ''.'') # (''*.'' @ Join (b # ?ds) ''.'') # (''*.'' @ Join ?ds ''.'') # tail_keys ds"
    using ds by simp
  then show ?thesis using sp ja jb j by auto
qed

text \<open>
  C5. In a reachable table that holds a wildcard route under \<open>*.suffix\<close>, the lookup of
  \<open>a.b.suffix\<close> (\<open>a\<close> and \<open>b\<close> being labels) returns that route if and only if no more
  specific route matches the host: no route under the host itself, none under the wildcard
  of the whole host, and none under \<open>*.b.suffix\<close>.
\<close>

theorem findRouteForHost_wildcard_iff:
  assumes "reachable s"
    and "CHR ''.'' \<notin> set a" and "CHR ''.'' \<notin> set b"
    and "map_of (domains s) (''*.'' @ ToLower suffix) = Some r"
  shows "findRouteForHost s (a @ ''.'' @ b @ ''.'' @ suffix) = Some r \<longleftrightarrow>
           map_of (domains s) (ToLower (a @ ''.'' @ b @ ''.'' @ suffix)) = None \<and>
           map_of (domains s) (''*.'' @ ToLower (a @ ''.'' @ b @ ''.'' @ suffix)) = None \<and>
           map_of (domains s) (''*.'' @ ToLower (b @ ''.'' @ suffix)) = None"
proof -
  let ?a = "ToLower a" and ?b = "ToLower b" and ?r = "ToLower suffix"
  let ?h = "?a @ ''.'' @ ?b @ ''.'' @ ?r"
  have h: "ToLower (a @ ''.'' @ b @ ''.'' @ suffix) = ?h"
    and hb: "ToLower (b @ ''.'' @ suffix) = ?b @ ''.'' @ ?r"
    by (simp_all add: ToLower_append ToLower_dot_Cons)
  obtain ks where ks: "tail_keys (SplitN ?h (CHR ''.'') 5) =
      (''*.'' @ ?h) # (''*.'' @ ?b @ ''.'' @ ?r) # (''*.'' @ ?r) # ks"
    using tail_keys_labels2[of ?a ?b ?r] assms(2,3) by (auto simp: dot_in_ToLower)
  have res: "findRouteForHost s (a @ ''.'' @ b @ ''.'' @ suffix) =
      first_present (domains s) (?h # (''*.'' @ ?h) # (''*.'' @ ?b @ ''.'' @ ?r) # (''*.'' @ ?r) # ks)"
    by (simp only: findRouteForHost_keys h ks)
  have other: "map_of (domains s) k \<noteq> Some r" if "k \<noteq> ''*.'' @ ?r" for k
    using domains_one_key[OF assms(1) _ assms(4), of k] that by auto
  have k1: "?h \<noteq> ''*.'' @ ?r"
  proof
    assume "?h = ''*.'' @ ?r"
    then have e: "?a @ CHR ''.'' # ?b = ''*''" by simp
    then have "length (?a @ CHR ''.'' # ?b) = length ''*''" by (rule arg_cong)
    then have "?a = [] \<and> ?b = []" by simp
    then show False using e by simp
  qed
  have k2: "''*.'' @ ?h \<noteq> ''*.'' @ ?r"
  proof
    assume "''*.'' @ ?h = ''*.'' @ ?r"
    then have "length (''*.'' @ ?h) = length (''*.'' @ ?r)" by simp
    then show False by simp
  qed
  have k3: "''*.'' @ ?b @ ''.'' @ ?r \<noteq> ''*.'' @ ?r"
  proof
    assume "''*.'' @ ?b @ ''.'' @ ?r = ''*.'' @ ?r"
    then have "length (''*.'' @ ?b @ ''.'' @ ?r) = length (''*.'' @ ?r)" by simp
    then show False by simp
  qed
  show ?thesis
    unfolding res h hb
    using other[OF k1] other[OF k2] other[OF k3] assms(4)
    by (auto split: option.splits)
qed

theorem findRouteForHost_wildcard_iff_witness:
  "findRouteForHost (snd (httpSyncHandler_Set no_keypair discoverd_up
       (example_route ''1'' ''*.Example.com'' ''web'') (Start None))) ''x.y.example.COM'' =
     Some \<lparr>Domain = ''*.Example.com'', Service = ''web'', TLSCert = [], TLSKey = [], Sticky = False,
           addr = 0, keypair = None, service = 0\<rparr>"
proof -
  let ?s = "snd (httpSyncHandler_Set no_keypair discoverd_up
       (example_route ''1'' ''*.Example.com'' ''web'') (Start None))"
  let ?r = "\<lparr>Domain = ''*.Example.com'', Service = ''web'', TLSCert = [], TLSKey = [], Sticky = False,
           addr = 0, keypair = None, service = 0\<rparr>"
  have r: "reachable ?s" by (intro reachable.intros)
  have d: "domains ?s = [(''*.example.com'', ?r)]" by (simp add: example_defs)
  have w: "map_of (domains ?s) (''*.'' @ ToLower ''example.COM'') = Some ?r"
    unfolding d by (simp add: ToLower_def lower_char_def upper_letters_def lower_letters_def)
  have n: "map_of (domains ?s) (ToLower (''x'' @ ''.'' @ ''y'' @ ''.'' @ ''example.COM'')) = None \<and>
           map_of (domains ?s) (''*.'' @ ToLower (''x'' @ ''.'' @ ''y'' @ ''.'' @ ''example.COM'')) = None \<and>
           map_of (domains ?s) (''*.'' @ ToLower (''y'' @ ''.'' @ ''example.COM'')) = None"
    unfolding d by (simp add: ToLower_def lower_char_def upper_letters_def lower_letters_def)
  have "findRouteForHost ?s (''x'' @ ''.'' @ ''y'' @ ''.'' @ ''example.COM'') = Some ?r"
    using findRouteForHost_wildcard_iff[OF r _ _ w, of "''x''" "''y''"] n by simp
  then show ?thesis by simp
qed

text \<open>
  C10. A wildcard route stored under \<open>*.X\<close> is what the lookup of the bare host \<open>X\<close>
  returns, unless a route is stored under \<open>X\<close> itself: the first wildcard key read is
  \<open>*.\<close> before the whole lowercased host, however many labels the host has.
\<close>

theorem findRouteForHost_bare_host:
  assumes "map_of (domains s) (''*.'' @ ToLower X) = Some r"
  shows "findRouteForHost s X =
           (case map_of (domains s) (ToLower X) of Some e \<Rightarrow> Some e | None \<Rightarrow> Some r)"
proof -
  obtain d ds where d: "SplitN (ToLower X) (CHR ''.'') 5 = d # ds"
    using SplitN_nonempty[of "ToLower X" "CHR ''.''" 4]
    by (cases "SplitN (ToLower X) (CHR ''.'') 5") (auto simp: eval_nat_numeral)
  have "Join (d # ds) ''.'' = ToLower X"
    using Join_SplitN[of "ToLower X" "CHR ''.''" 4] d by (simp add: eval_nat_numeral)
  then have "tail_keys (SplitN (ToLower X) (CHR ''.'') 5) = (''*.'' @ ToLower X) # tail_keys ds"
    using d by simp
  then show ?thesis
    using assms by (simp add: findRouteForHost_keys split: option.splits)
qed

theorem findRouteForHost_bare_host_witness:
  "findRouteForHost (snd (httpSyncHandler_Set no_keypair discoverd_up
       (example_route ''1'' ''*.example.com'' ''web'') (Start None))) ''example.com'' =
     Some \<lparr>Domain = ''*.example.com'', Service = ''web'', TLSCert = [], TLSKey = [], Sticky = False,
           addr = 0, keypair = None, service = 0\<rparr>"
proof -
  let ?s = "snd (httpSyncHandler_Set no_keypair discoverd_up
       (example_route ''1'' ''*.example.com'' ''web'') (Start None))"
  let ?r = "\<lparr>Domain = ''*.example.com'', Service = ''web'', TLSCert = [], TLSKey = [], Sticky = False,
           addr = 0, keypair = None, service = 0\<rparr>"
  have d: "domains ?s = [(''*.example.com'', ?r)]" by (simp add: example_defs)
  have w: "map_of (domains ?s) (''*.'' @ ToLower ''example.com'') = Some ?r"
    unfolding d by (simp add: ToLower_def lower_char_def upper_letters_def lower_letters_def)
  have n: "map_of (domains ?s) (ToLower ''example.com'') = None"
    unfolding d by (simp add: ToLower_def lower_char_def upper_letters_def lower_letters_def)
  show ?thesis using findRouteForHost_bare_host[OF w] n by simp
qed


lemma tail_keys_labels4:
  assumes "CHR ''.'' \<notin> set l1" "CHR ''.'' \<notin> set l2" "CHR ''.'' \<notin> set l3" "CHR ''.'' \<notin> set l4"
  shows "tail_keys (SplitN (l1 @ ''.'' @ l2 @ ''.'' @ l3 @ ''.'' @ l4 @ ''.'' @ rest) (CHR ''.'') 5) =
           [''*.'' @ l1 @ ''.'' @ l2 @ ''.'' @ l3 @ ''.'' @ l4 @ ''.'' @ rest,
            ''*.'' @ l2 @ ''.'' @ l3 @ ''.'' @ l4 @ ''.'' @ rest,
            ''*.'' @ l3 @ ''.'' @ l4 @ ''.'' @ rest,
            ''*.'' @ l4 @ ''.'' @ rest,
            ''*.'' @ rest]"
proof -
  have "SplitN (l1 @ ''.'' @ l2 @ ''.'' @ l3 @ ''.'' @ l4 @ ''.'' @ rest) (CHR ''.'') 5 =
      [l1, l2, l3, l4, rest]"
    using assms
      SplitN_label[of "CHR ''.''" l1 "l2 @ ''.'' @ l3 @ ''.'' @ l4 @ ''.'' @ rest" 3]
      SplitN_label[of "CHR ''.''" l2 "l3 @ ''.'' @ l4 @ ''.'' @ rest" 2]
      SplitN_label[of "CHR ''.''" l3 "l4 @ ''.'' @ rest" 1]
      SplitN_label[of "CHR ''.''" l4 rest 0]
    by (simp add: eval_nat_numeral)
  then show ?thesis by simp
qed

text \<open>
  C4, as the code has it. The host is lowercased and split by \<open>SplitN(host, ".", 5)\<close> into at
  most five pieces whose join is the host again, the fifth piece being the whole remainder
  after the fourth dot. After the exact key, the lookup reads at most five wildcard keys,
  from \<open>*.\<close> before the whole host to \<open>*.\<close> before the last piece, and returns the first
  entry it finds. For a host \<open>l1.l2.l3.l4.rest\<close> of five or more labels these are exactly the
  keys listed below, whatever dots \<open>rest\<close> holds: no key broader than \<open>*.rest\<close> is read.
\<close>

theorem findRouteForHost_five_keys:
  "length (SplitN (ToLower host) (CHR ''.'') 5) \<le> 5 \<and>
   Join (SplitN (ToLower host) (CHR ''.'') 5) ''.'' = ToLower host \<and>
   findRouteForHost s host =
     first_present (domains s) (ToLower host # tail_keys (SplitN (ToLower host) (CHR ''.'') 5)) \<and>
   (CHR ''.'' \<notin> set l1 \<and> CHR ''.'' \<notin> set l2 \<and> CHR ''.'' \<notin> set l3 \<and> CHR ''.'' \<notin> set l4 \<longrightarrow>
    findRouteForHost s (l1 @ ''.'' @ l2 @ ''.'' @ l3 @ ''.'' @ l4 @ ''.'' @ rest) =
      first_present (domains s)
        (map ToLower
          [l1 @ ''.'' @ l2 @ ''.'' @ l3 @ ''.'' @ l4 @ ''.'' @ rest,
           ''*.'' @ l1 @ ''.'' @ l2 @ ''.'' @ l3 @ ''.'' @ l4 @ ''.'' @ rest,
           ''*.'' @ l2 @ ''.'' @ l3 @ ''.'' @ l4 @ ''.'' @ rest,
           ''*.'' @ l3 @ ''.'' @ l4 @ ''.'' @ rest,
           ''*.'' @ l4 @ ''.'' @ rest,
           ''*.'' @ rest]))"
proof (intro conjI impI)
  show "length (SplitN (ToLower host) (CHR ''.'') 5) \<le> 5" by (rule length_SplitN)
  show "Join (SplitN (ToLower host) (CHR ''.'') 5) ''.'' = ToLower host"
    using Join_SplitN[of "ToLower host" "CHR ''.''" 4] by (simp add: eval_nat_numeral)
  show "findRouteForHost s host =
     first_present (domains s) (ToLower host # tail_keys (SplitN (ToLower host) (CHR ''.'') 5))"
    by (rule findRouteForHost_keys)
next
  assume a: "CHR ''.'' \<notin> set l1 \<and> CHR ''.'' \<notin> set l2 \<and> CHR ''.'' \<notin> set l3 \<and> CHR ''.'' \<notin> set l4"
  let ?h = "ToLower l1 @ ''.'' @ ToLower l2 @ ''.'' @ ToLower l3 @ ''.'' @ ToLower l4 @ ''.'' @ ToLower rest"
  have h: "ToLower (l1 @ ''.'' @ l2 @ ''.'' @ l3 @ ''.'' @ l4 @ ''.'' @ rest) = ?h"
    by (simp add: ToLower_append ToLower_dot_Cons)
  have k: "tail_keys (SplitN ?h (CHR ''.'') 5) =
           [''*.'' @ ?h,
            ''*.'' @ ToLower l2 @ ''.'' @ ToLower l3 @ ''.'' @ ToLower l4 @ ''.'' @ ToLower rest,
            ''*.'' @ ToLower l3 @ ''.'' @ ToLower l4 @ ''.'' @ ToLower rest,
            ''*.'' @ ToLower l4 @ ''.'' @ ToLower rest,
            ''*.'' @ ToLower rest]"
    using a by (intro tail_keys_labels4) (simp_all add: dot_in_ToLower)
  have "findRouteForHost s (l1 @ ''.'' @ l2 @ ''.'' @ l3 @ ''.'' @ l4 @ ''.'' @ rest) =
      first_present (domains s) (?h # tail_keys (SplitN ?h (CHR ''.'') 5))"
    by (simp only: findRouteForHost_keys h)
  also have "?h # tail_keys (SplitN ?h (CHR ''.'') 5) = map ToLower
          [l1 @ ''.'' @ l2 @ ''.'' @ l3 @ ''.'' @ l4 @ ''.'' @ rest,
           ''*.'' @ l1 @ ''.'' @ l2 @ ''.'' @ l3 @ ''.'' @ l4 @ ''.'' @ rest,
           ''*.'' @ l2 @ ''.'' @ l3 @ ''.'' @ l4 @ ''.'' @ rest,
           ''*.'' @ l3 @ ''.'' @ l4 @ ''.'' @ rest,
           ''*.'' @ l4 @ ''.'' @ rest,
           ''*.'' @ rest]"
    unfolding k by (simp add: ToLower_append ToLower_dot_Cons ToLower_star_dot ToLower_star_Cons)
  finally show "findRouteForHost s (l1 @ ''.'' @ l2 @ ''.'' @ l3 @ ''.'' @ l4 @ ''.'' @ rest) =
      first_present (domains s)
        (map ToLower
          [l1 @ ''.'' @ l2 @ ''.'' @ l3 @ ''.'' @ l4 @ ''.'' @ rest,
           ''*.'' @ l1 @ ''.'' @ l2 @ ''.'' @ l3 @ ''.'' @ l4 @ ''.'' @ rest,
           ''*.'' @ l2 @ ''.'' @ l3 @ ''.'' @ l4 @ ''.'' @ rest,
           ''*.'' @ l3 @ ''.'' @ l4 @ ''.'' @ rest,
           ''*.'' @ l4 @ ''.'' @ rest,
           ''*.'' @ rest])" .
qed

theorem findRouteForHost_five_keys_witness:
  "findRouteForHost (snd (httpSyncHandler_Set no_keypair discoverd_up
       (example_route ''1'' ''*.e.f'' ''web'') (Start None))) ''a.b.c.d.e.f'' =
     Some \<lparr>Domain = ''*.e.f'', Service = ''web'', TLSCert = [], TLSKey = [], Sticky = False,
           addr = 0, keypair = None, service = 0\<rparr>"
proof -
  let ?s = "snd (httpSyncHandler_Set no_keypair discoverd_up
       (example_route ''1'' ''*.e.f'' ''web'') (Start None))"
  have d: "domains ?s = [(''*.e.f'', \<lparr>Domain = ''*.e.f'', Service = ''web'', TLSCert = [], TLSKey = [],
     Sticky = False, addr = 0, keypair = None, service = 0\<rparr>)]"
    by (simp add: example_defs)
  have "CHR ''.'' \<notin> set ''a'' \<and> CHR ''.'' \<notin> set ''b'' \<and> CHR ''.'' \<notin> set ''c'' \<and> CHR ''.'' \<notin> set ''d''"
    by simp
  then have "findRouteForHost ?s (''a'' @ ''.'' @ ''b'' @ ''.'' @ ''c'' @ ''.'' @ ''d'' @ ''.'' @ ''e.f'') =
      first_present (domains ?s)
        (map ToLower
          [''a'' @ ''.'' @ ''b'' @ ''.'' @ ''c'' @ ''.'' @ ''d'' @ ''.'' @ ''e.f'',
           ''*.'' @ ''a'' @ ''.'' @ ''b'' @ ''.'' @ ''c'' @ ''.'' @ ''d'' @ ''.'' @ ''e.f'',
           ''*.'' @ ''b'' @ ''.'' @ ''c'' @ ''.'' @ ''d'' @ ''.'' @ ''e.f'',
           ''*.'' @ ''c'' @ ''.'' @ ''d'' @ ''.'' @ ''e.f'',
           ''*.'' @ ''d'' @ ''.'' @ ''e.f'',
           ''*.'' @ ''e.f''])"
    using findRouteForHost_five_keys[of "''a.b.c.d.e.f''" ?s "''a''" "''b''" "''c''" "''d''" "''e.f''"]
    by blast
  then show ?thesis
    unfolding d by (simp add: ToLower_def lower_char_def upper_letters_def lower_letters_def)
qed

text \<open>
  C4 as stated fails on both counts: for the six-label host \<open>a.b.c.d.e.f\<close> the broader
  wildcard \<open>*.f\<close> is not found, and the wildcard \<open>*.a.b.c.d.e.f\<close>, six labels deep, is.
\<close>

theorem findRouteForHost_six_labels_counterexample:
  "findRouteForHost (snd (httpSyncHandler_Set no_keypair discoverd_up
       (example_route ''1'' ''*.f'' ''web'') (Start None))) ''a.b.c.d.e.f'' = None \<and>
   findRouteForHost (snd (httpSyncHandler_Set no_keypair discoverd_up
       (example_route ''1'' ''*.a.b.c.d.e.f'' ''web'') (Start None))) ''a.b.c.d.e.f'' =
     Some \<lparr>Domain = ''*.a.b.c.d.e.f'', Service = ''web'', TLSCert = [], TLSKey = [], Sticky = False,
           addr = 0, keypair = None, service = 0\<rparr>"
  by (simp add: example_defs eval_nat_numeral)


subsection \<open>The sync handler on concrete inputs\<close>

text \<open>
  C1 (the code departs from the claim). \<open>Set\<close> reads the service to release from
  \<open>services[r.Service]\<close>, the entry of the \<^emph>\<open>new\<close> name, whose \<open>name\<close> field always equals
  that name; the route stored under the ID before is never consulted. Setting the same route
  twice leaves one route and a reference count of two; setting an ID to another service
  leaves the first service with a count of one and no route.
\<close>

theorem Set_twice_refs:
  "(let s2 = snd (httpSyncHandler_Set no_keypair discoverd_up (example_route ''1'' ''a.com'' ''web'')
              (snd (httpSyncHandler_Set no_keypair discoverd_up (example_route ''1'' ''a.com'' ''web'')
                 (Start None))))
    in services s2 = [(''web'', 0)] \<and> refs (service_heap s2 0) = 2 \<and>
       map (\<lambda>kr. (fst kr, service (snd kr))) (routes s2) = [(''1'', 0)]) \<and>
   (let s2 = snd (httpSyncHandler_Set no_keypair discoverd_up (example_route ''1'' ''a.com'' ''api'')
              (snd (httpSyncHandler_Set no_keypair discoverd_up (example_route ''1'' ''a.com'' ''web'')
                 (Start None))))
    in services s2 = [(''web'', 0), (''api'', 1)] \<and>
       refs (service_heap s2 0) = 1 \<and> \<not> ss_closed (ss (service_heap s2 0)) \<and>
       refs (service_heap s2 1) = 1 \<and>
       map (\<lambda>kr. (fst kr, service (snd kr))) (routes s2) = [(''1'', 1)])"
  by (simp add: example_defs)

text \<open>
  C2 (the code departs from the claim). \<open>Set\<close> stores the route under the lowercased
  domain, \<open>Remove\<close> deletes the key \<open>r.Domain\<close> as it is written. After a successful
  \<open>Remove\<close> of a route whose domain has an uppercase letter, the lookup of that domain still
  returns the route.
\<close>

theorem Remove_uppercase_domain_still_found:
  "(let r = \<lparr>Domain = ''Example.com'', Service = ''web'', TLSCert = [], TLSKey = [], Sticky = False,
             addr = 0, keypair = None, service = 0\<rparr>;
        s1 = snd (httpSyncHandler_Set no_keypair discoverd_up
                    (example_route ''1'' ''Example.com'' ''web'') (Start None))
    in map_of (routes s1) ''1'' = Some r \<and>
       fst (httpSyncHandler_Remove ''1'' s1) = None \<and>
       findRouteForHost (snd (httpSyncHandler_Remove ''1'' s1)) ''Example.com'' = Some r)"
  by (simp add: example_defs)

text \<open>
  C3 (the code departs from the claim). After the same two calls the route map is empty and
  the domains map still holds the route; and two IDs set with one domain leave two routes in
  the route map and one in the domains map.
\<close>

theorem Remove_uppercase_domain_maps_differ:
  "(let s2 = snd (httpSyncHandler_Remove ''1''
              (snd (httpSyncHandler_Set no_keypair discoverd_up
                      (example_route ''1'' ''Example.com'' ''web'') (Start None))))
    in routes s2 = [] \<and> map (\<lambda>kr. (fst kr, addr (snd kr))) (domains s2) = [(''example.com'', 0)]) \<and>
   (let s2 = snd (httpSyncHandler_Set no_keypair discoverd_up (example_route ''2'' ''a.com'' ''web'')
              (snd (httpSyncHandler_Set no_keypair discoverd_up (example_route ''1'' ''A.com'' ''web'')
                 (Start None))))
    in map (\<lambda>kr. (fst kr, addr (snd kr))) (routes s2) = [(''1'', 0), (''2'', 1)] \<and>
       map (\<lambda>kr. (fst kr, addr (snd kr))) (domains s2) = [(''a.com'', 1)])"
  by (simp add: example_defs)


section \<open>Properties of backend selection\<close>

lemma addr_listed_iff: "addr_listed as a \<longleftrightarrow> a \<in> set as"
  by (induction as) auto

lemma pickBackend_in_pool: "Addrs (ss s) \<noteq> [] \<Longrightarrow> pickBackend rnd s \<in> set (Addrs (ss s))"
  by (simp add: pickBackend_def Let_def)

lemma pickBackend_empty_pool: "Addrs (ss s) = [] \<Longrightarrow> pickBackend rnd s = []"
  by (simp add: pickBackend_def)

text \<open>The code opens a cookie as \<open>open_cookie\<close> says, and seals one as \<open>seal\<close> says.\<close>

lemma pickBackendSticky_open_cookie:
  "pickBackendSticky L rnd rand req s =
     (case Request_Cookie req stickyCookie of
        None \<Rightarrow> pickNewBackendSticky L rnd rand s
      | Some c \<Rightarrow>
          (case open_cookie L (cookieKey s) (Value c) of
             None \<Rightarrow> pickNewBackendSticky L rnd rand s
           | Some a \<Rightarrow>
               if a \<in> set (Addrs (ss s)) then Inr (a, None) else pickNewBackendSticky L rnd rand s))"
  by (simp add: pickBackendSticky_def open_cookie_def addr_listed_iff split: option.splits)

lemma pickNewBackendSticky_seal:
  "pickBackend rnd s \<noteq> [] \<Longrightarrow>
   pickNewBackendSticky L rnd (Some nonce) s =
     Inr (pickBackend rnd s,
          Some \<lparr>Name = stickyCookie, Value = seal L (cookieKey s) nonce (pickBackend rnd s), Path = ''/''\<rparr>)"
  by (simp add: pickNewBackendSticky_def seal_def Let_def)

lemma pickNewBackendSticky_no_bare_addr:
  "pickNewBackendSticky L rnd rand s = Inr (a, None) \<Longrightarrow> a = []"
  by (auto simp: pickNewBackendSticky_def Let_def split: if_splits option.splits)

lemma open_cookie_seal:
  assumes "base64_DecodeString L (base64_EncodeToString L (nonce @ secretbox_Seal L a nonce key)) =
             Some (nonce @ secretbox_Seal L a nonce key)"
    and "secretbox_Open L (secretbox_Seal L a nonce key) nonce key = Some a"
    and "length nonce = 24"
  shows "open_cookie L key (seal L key nonce a) = Some a"
  using assms by (simp add: open_cookie_def seal_def)

text \<open>
  C6. Given the contracts of the libraries (decoding an encoding gives the bytes back, opening
  a box under the nonce and key that sealed it gives the message back) and a 24-byte nonce:
  opening a sealed address gives the address, and a request that carries the cookie
  \<open>pickNewBackendSticky\<close> made gets from \<open>pickBackendSticky\<close>, under the same key, the address
  that was sealed and no new cookie. A value that does not decode, that decodes to less than
  24 bytes, or whose box \<open>secretbox.Open\<close> refuses under the key (as it does an altered box
  or one sealed under another key) opens to nothing, and then \<open>pickBackendSticky\<close> returns
  what a fresh pick returns. If \<open>secretbox.Open\<close> accepts only what was sealed under the key,
  the only values that open are encodings of a nonce followed by a box sealed under that key.
\<close>

theorem sticky_cookie_roundtrip:
  assumes b64: "\<forall>x. base64_DecodeString L (base64_EncodeToString L x) = Some x"
    and box: "\<forall>m. secretbox_Open L (secretbox_Seal L m nonce key) nonce key = Some m"
    and nonce: "length nonce = 24"
  shows "open_cookie L key (seal L key nonce a) = Some a \<and>
    (cookieKey s = key \<and> pickNewBackendSticky L rnd (Some nonce) s = Inr (b, Some c) \<and>
       Request_Cookie req stickyCookie = Some c \<longrightarrow>
         pickBackendSticky L rnd' rand' req s = Inr (b, None)) \<and>
    (base64_DecodeString L v = None \<longrightarrow> open_cookie L key v = None) \<and>
    (\<forall>data. base64_DecodeString L v = Some data \<and> length data < 24 \<longrightarrow> open_cookie L key v = None) \<and>
    (\<forall>data. base64_DecodeString L v = Some data \<and>
        secretbox_Open L (drop 24 data) (take 24 data) key = None \<longrightarrow> open_cookie L key v = None) \<and>
    (Request_Cookie req stickyCookie = Some c' \<and> open_cookie L (cookieKey s) (Value c') = None \<longrightarrow>
       pickBackendSticky L rnd rand req s = pickNewBackendSticky L rnd rand s) \<and>
    ((\<forall>bx n m. secretbox_Open L bx n key = Some m \<longrightarrow> bx = secretbox_Seal L m n key) \<longrightarrow>
       (\<forall>a'. open_cookie L key v = Some a' \<longrightarrow>
          (\<exists>n. length n = 24 \<and> base64_DecodeString L v = Some (n @ secretbox_Seal L a' n key))))"
proof (intro conjI impI allI)
  show rt: "open_cookie L key (seal L key nonce a) = Some a"
    using b64 box nonce by (intro open_cookie_seal) auto
next
  assume h: "cookieKey s = key \<and> pickNewBackendSticky L rnd (Some nonce) s = Inr (b, Some c) \<and>
       Request_Cookie req stickyCookie = Some c"
  then have ne: "pickBackend rnd s \<noteq> []"
    by (auto simp: pickNewBackendSticky_def Let_def split: if_splits)
  have "pickNewBackendSticky L rnd (Some nonce) s = Inr (pickBackend rnd s,
          Some \<lparr>Name = stickyCookie, Value = seal L (cookieKey s) nonce (pickBackend rnd s), Path = ''/''\<rparr>)"
    using ne by (rule pickNewBackendSticky_seal)
  with h have b: "b = pickBackend rnd s"
    and "c = \<lparr>Name = stickyCookie, Value = seal L (cookieKey s) nonce (pickBackend rnd s), Path = ''/''\<rparr>"
    by auto
  then have c: "Value c = seal L key nonce b" using h by simp
  have pool: "Addrs (ss s) \<noteq> []" using ne by (auto simp: pickBackend_def)
  have "b \<in> set (Addrs (ss s))" using pickBackend_in_pool[OF pool, of rnd] b by simp
  moreover have "open_cookie L (cookieKey s) (Value c) = Some b"
    using h c b64 box nonce open_cookie_seal[of L nonce b key] by auto
  ultimately show "pickBackendSticky L rnd' rand' req s = Inr (b, None)"
    using h by (simp add: pickBackendSticky_open_cookie)
next
  assume "base64_DecodeString L v = None"
  then show "open_cookie L key v = None" by (simp add: open_cookie_def)
next
  fix data
  assume "base64_DecodeString L v = Some data \<and> length data < 24"
  then show "open_cookie L key v = None" by (simp add: open_cookie_def)
next
  fix data
  assume "base64_DecodeString L v = Some data \<and>
        secretbox_Open L (drop 24 data) (take 24 data) key = None"
  then show "open_cookie L key v = None" by (simp add: open_cookie_def)
next
  assume "Request_Cookie req stickyCookie = Some c' \<and> open_cookie L (cookieKey s) (Value c') = None"
  then show "pickBackendSticky L rnd rand req s = pickNewBackendSticky L rnd rand s"
    by (simp add: pickBackendSticky_open_cookie)
next
  fix a'
  assume auth: "\<forall>bx n m. secretbox_Open L bx n key = Some m \<longrightarrow> bx = secretbox_Seal L m n key"
    and o: "open_cookie L key v = Some a'"
  from o obtain data where d: "base64_DecodeString L v = Some data" "\<not> length data < 24"
    "secretbox_Open L (drop 24 data) (take 24 data) key = Some a'"
    by (auto simp: open_cookie_def split: option.splits if_splits)
  then have "drop 24 data = secretbox_Seal L a' (take 24 data) key" using auth by blast
  then have "data = take 24 data @ secretbox_Seal L a' (take 24 data) key"
    by (metis append_take_drop_id)
  moreover have "length (take 24 data) = 24" using d(2) by simp
  ultimately show "\<exists>n. length n = 24 \<and> base64_DecodeString L v = Some (n @ secretbox_Seal L a' n key)"
    using d(1) by metis
qed

theorem sticky_cookie_roundtrip_witness:
  "open_cookie example_lib example_key (seal example_lib example_key example_nonce ''10.0.0.1:80'') =
     Some ''10.0.0.1:80'' \<and>
   pickNewBackendSticky example_lib 0 (Some example_nonce) (example_service [''10.0.0.1:80'']) =
     Inr (''10.0.0.1:80'',
          Some \<lparr>Name = ''_backend'', Value = example_nonce @ example_key @ example_nonce @ ''10.0.0.1:80'',
                Path = ''/''\<rparr>) \<and>
   pickBackendSticky example_lib 7 None
     (example_request ''GET'' ''a.com'' ''/''
        [\<lparr>Name = ''_backend'', Value = example_nonce @ example_key @ example_nonce @ ''10.0.0.1:80'',
          Path = ''/''\<rparr>])
     (example_service [''10.0.0.1:80'']) = Inr (''10.0.0.1:80'', None) \<and>
   open_cookie example_lib example_key ''short'' = None"
proof -
  let ?c = "\<lparr>Name = ''_backend'', Value = example_nonce @ example_key @ example_nonce @ ''10.0.0.1:80'',
                Path = ''/''\<rparr>"
  let ?s = "example_service [''10.0.0.1:80'']"
  let ?req = "example_request ''GET'' ''a.com'' ''/'' [?c]"
  have b64: "\<forall>x. base64_DecodeString example_lib (base64_EncodeToString example_lib x) = Some x"
    by (simp add: example_lib_def)
  have box: "\<forall>m. secretbox_Open example_lib (secretbox_Seal example_lib m example_nonce example_key)
      example_nonce example_key = Some m"
    by (simp add: example_lib_def)
  have n: "length example_nonce = 24" by (simp add: example_nonce_def)
  have k: "cookieKey ?s = example_key" by (simp add: example_service_def)
  have new: "pickNewBackendSticky example_lib 0 (Some example_nonce) ?s = Inr (''10.0.0.1:80'', Some ?c)"
    by (simp add: pickNewBackendSticky_def pickBackend_def example_lib_def example_service_def
        stickyCookie_def Let_def)
  have ck: "Request_Cookie ?req stickyCookie = Some ?c"
    by (simp add: Request_Cookie_def example_request_def stickyCookie_def)
  have dec: "base64_DecodeString example_lib ''short'' = Some ''short'' \<and> length ''short'' < 24"
    by (simp add: example_lib_def)
  note t = sticky_cookie_roundtrip[OF b64 box n, of "''10.0.0.1:80''" ?s 0 "''10.0.0.1:80''" ?c ?req 7 None
      "''short''"]
  from t have "open_cookie example_lib example_key (seal example_lib example_key example_nonce ''10.0.0.1:80'') =
     Some ''10.0.0.1:80''" by blast
  moreover from t k new ck have "pickBackendSticky example_lib 7 None ?req ?s = Inr (''10.0.0.1:80'', None)"
    by blast
  moreover from t dec have "open_cookie example_lib example_key ''short'' = None" by blast
  ultimately show ?thesis using new by simp
qed


text \<open>
  C7. With no empty address in the pool: \<open>pickBackendSticky\<close> returns an address \<open>a\<close> and no
  new cookie exactly when the request carries a \<open>_backend\<close> cookie that opens (decodes and
  authenticates) to \<open>a\<close> and \<open>a\<close> is in the current \<open>Addrs()\<close>. In every other case it
  returns what \<open>pickNewBackendSticky\<close> returns, which for a non-empty pool and a nonce read
  without error is a backend of the pool together with the cookie \<open>_backend\<close>, path \<open>/\<close>,
  whose value seals that backend.
\<close>

theorem pickBackendSticky_cases:
  assumes "[] \<notin> set (Addrs (ss s))"
  shows "(pickBackendSticky L rnd rand req s = Inr (a, None) \<and> a \<noteq> [] \<longleftrightarrow>
           (\<exists>c. Request_Cookie req ''_backend'' = Some c \<and>
                open_cookie L (cookieKey s) (Value c) = Some a \<and> a \<in> set (Addrs (ss s)))) \<and>
         ((\<nexists>c a'. Request_Cookie req ''_backend'' = Some c \<and>
                open_cookie L (cookieKey s) (Value c) = Some a' \<and> a' \<in> set (Addrs (ss s))) \<longrightarrow>
            pickBackendSticky L rnd rand req s = pickNewBackendSticky L rnd rand s) \<and>
         (Addrs (ss s) \<noteq> [] \<longrightarrow>
            pickBackend rnd s \<in> set (Addrs (ss s)) \<and>
            pickNewBackendSticky L rnd (Some nonce) s =
              Inr (pickBackend rnd s,
                   Some \<lparr>Name = ''_backend'', Value = seal L (cookieKey s) nonce (pickBackend rnd s),
                         Path = ''/''\<rparr>))"
proof (intro conjI impI)
  show "pickBackendSticky L rnd rand req s = Inr (a, None) \<and> a \<noteq> [] \<longleftrightarrow>
           (\<exists>c. Request_Cookie req ''_backend'' = Some c \<and>
                open_cookie L (cookieKey s) (Value c) = Some a \<and> a \<in> set (Addrs (ss s)))"
  proof
    assume h: "pickBackendSticky L rnd rand req s = Inr (a, None) \<and> a \<noteq> []"
    then have n: "pickNewBackendSticky L rnd rand s \<noteq> Inr (a, None)"
      using pickNewBackendSticky_no_bare_addr[of L rnd rand s a] by auto
    show "\<exists>c. Request_Cookie req ''_backend'' = Some c \<and>
                open_cookie L (cookieKey s) (Value c) = Some a \<and> a \<in> set (Addrs (ss s))"
    proof (cases "Request_Cookie req stickyCookie")
      case None
      then show ?thesis using h n by (simp add: pickBackendSticky_open_cookie)
    next
      case (Some c)
      show ?thesis
      proof (cases "open_cookie L (cookieKey s) (Value c)")
        case None
        then show ?thesis using h n Some by (simp add: pickBackendSticky_open_cookie)
      next
        case (Some a')
        then show ?thesis
          using h n \<open>Request_Cookie req stickyCookie = Some c\<close>
          by (auto simp: pickBackendSticky_open_cookie stickyCookie_def split: if_splits)
      qed
    qed
  next
    assume "\<exists>c. Request_Cookie req ''_backend'' = Some c \<and>
                open_cookie L (cookieKey s) (Value c) = Some a \<and> a \<in> set (Addrs (ss s))"
    then show "pickBackendSticky L rnd rand req s = Inr (a, None) \<and> a \<noteq> []"
      using assms by (auto simp: pickBackendSticky_open_cookie stickyCookie_def)
  qed
next
  assume "\<nexists>c a'. Request_Cookie req ''_backend'' = Some c \<and>
                open_cookie L (cookieKey s) (Value c) = Some a' \<and> a' \<in> set (Addrs (ss s))"
  then show "pickBackendSticky L rnd rand req s = pickNewBackendSticky L rnd rand s"
    by (auto simp: pickBackendSticky_open_cookie stickyCookie_def split: option.splits)
next
  assume p: "Addrs (ss s) \<noteq> []"
  show "pickBackend rnd s \<in> set (Addrs (ss s))" using pickBackend_in_pool[OF p] by simp
  then have "pickBackend rnd s \<noteq> []" using assms by auto
  then show "pickNewBackendSticky L rnd (Some nonce) s =
              Inr (pickBackend rnd s,
                   Some \<lparr>Name = ''_backend'', Value = seal L (cookieKey s) nonce (pickBackend rnd s),
                         Path = ''/''\<rparr>)"
    using pickNewBackendSticky_seal[of rnd s L nonce] by (simp add: stickyCookie_def)
qed

theorem pickBackendSticky_cases_witness:
  "pickBackendSticky example_lib 1 (Some example_nonce)
     (example_request ''GET'' ''a.com'' ''/''
        [\<lparr>Name = ''_backend'', Value = example_nonce @ example_key @ example_nonce @ ''10.0.0.9:80'',
          Path = ''/''\<rparr>])
     (example_service [''10.0.0.1:80'', ''10.0.0.2:80'']) =
     Inr (''10.0.0.2:80'',
          Some \<lparr>Name = ''_backend'', Value = example_nonce @ example_key @ example_nonce @ ''10.0.0.2:80'',
                Path = ''/''\<rparr>) \<and>
   pickBackendSticky example_lib 1 (Some example_nonce)
     (example_request ''GET'' ''a.com'' ''/''
        [\<lparr>Name = ''_backend'', Value = example_nonce @ example_key @ example_nonce @ ''10.0.0.1:80'',
          Path = ''/''\<rparr>])
     (example_service [''10.0.0.1:80'', ''10.0.0.2:80'']) = Inr (''10.0.0.1:80'', None)"
proof -
  let ?s = "example_service [''10.0.0.1:80'', ''10.0.0.2:80'']"
  let ?c9 = "\<lparr>Name = ''_backend'', Value = example_nonce @ example_key @ example_nonce @ ''10.0.0.9:80'',
          Path = ''/''\<rparr>"
  let ?c1 = "\<lparr>Name = ''_backend'', Value = example_nonce @ example_key @ example_nonce @ ''10.0.0.1:80'',
          Path = ''/''\<rparr>"
  let ?r9 = "example_request ''GET'' ''a.com'' ''/'' [?c9]"
  let ?r1 = "example_request ''GET'' ''a.com'' ''/'' [?c1]"
  have pool: "[] \<notin> set (Addrs (ss ?s))" "Addrs (ss ?s) \<noteq> []"
    by (simp_all add: example_service_def)
  have pick: "pickBackend 1 ?s = ''10.0.0.2:80''"
    by (simp add: pickBackend_def example_service_def Let_def)
  have sealed: "seal example_lib (cookieKey ?s) example_nonce ''10.0.0.2:80'' =
      example_nonce @ example_key @ example_nonce @ ''10.0.0.2:80''"
    by (simp add: seal_def example_lib_def example_service_def)
  have c9: "Request_Cookie ?r9 ''_backend'' = Some ?c9" and c1: "Request_Cookie ?r1 ''_backend'' = Some ?c1"
    by (simp_all add: Request_Cookie_def example_request_def)
  have o9: "open_cookie example_lib (cookieKey ?s) (Value ?c9) = Some ''10.0.0.9:80''"
    and o1: "open_cookie example_lib (cookieKey ?s) (Value ?c1) = Some ''10.0.0.1:80''"
    by (simp_all add: open_cookie_def example_lib_def example_service_def example_key_def
        example_nonce_def)
  have miss: "\<nexists>c a'. Request_Cookie ?r9 ''_backend'' = Some c \<and>
      open_cookie example_lib (cookieKey ?s) (Value c) = Some a' \<and> a' \<in> set (Addrs (ss ?s))"
    using c9 o9 by (auto simp: example_service_def)
  have hit: "\<exists>c. Request_Cookie ?r1 ''_backend'' = Some c \<and>
      open_cookie example_lib (cookieKey ?s) (Value c) = Some ''10.0.0.1:80'' \<and>
      ''10.0.0.1:80'' \<in> set (Addrs (ss ?s))"
    using c1 o1 by (auto simp: example_service_def)
  have "pickBackendSticky example_lib 1 (Some example_nonce) ?r9 ?s =
      Inr (pickBackend 1 ?s, Some \<lparr>Name = ''_backend'',
        Value = seal example_lib (cookieKey ?s) example_nonce (pickBackend 1 ?s), Path = ''/''\<rparr>)"
    using pickBackendSticky_cases[OF pool(1), of example_lib 1 "Some example_nonce" ?r9 "''x''" example_nonce]
      miss pool(2) by metis
  moreover have "pickBackendSticky example_lib 1 (Some example_nonce) ?r1 ?s = Inr (''10.0.0.1:80'', None)"
    using pickBackendSticky_cases[OF pool(1), of example_lib 1 "Some example_nonce" ?r1 "''10.0.0.1:80''" example_nonce]
      hit by blast
  ultimately show ?thesis unfolding pick sealed by simp
qed

section \<open>Properties of request serving\<close>

lemma pickNewBackendSticky_empty_pool:
  "Addrs (ss s) = [] \<Longrightarrow> pickNewBackendSticky L rnd rand s = Inr ([], None)"
  by (simp add: pickNewBackendSticky_def pickBackend_empty_pool)

lemma pickBackendSticky_empty_pool:
  "Addrs (ss s) = [] \<Longrightarrow> pickBackendSticky L rnd rand req s = Inr ([], None)"
  by (simp add: pickBackendSticky_open_cookie pickNewBackendSticky_empty_pool split: option.splits)

lemma httpService_ServeHTTP_empty_pool:
  "Addrs (ss s) = [] \<Longrightarrow>
   httpService_ServeHTTP L rnd rand now uuid s req = Inr (Failed (fail 503 ''Service Unavailable''))"
  by (simp add: httpService_ServeHTTP_def Let_def pickBackendSticky_empty_pool pickBackend_empty_pool)

text \<open>
  C8. A request whose host finds no route is answered 404 Not Found; a request whose host
  finds a route whose service has no address at the moment is answered 503 Service
  Unavailable, on the sticky path as on the plain one.
\<close>

theorem ServeHTTP_404_503:
  "(findRouteForHost s (Host req) = None \<longrightarrow>
      HTTPListener_ServeHTTP L rnd rand now uuid s req = Inr (Failed (fail 404 ''Not Found'')) \<and>
      StatusCode (fail 404 ''Not Found'') = 404) \<and>
   (\<forall>r. findRouteForHost s (Host req) = Some r \<and> Addrs (ss (service_heap s (service r))) = [] \<longrightarrow>
      HTTPListener_ServeHTTP L rnd rand now uuid s req =
        Inr (Failed (fail 503 ''Service Unavailable'')) \<and>
      StatusCode (fail 503 ''Service Unavailable'') = 503)"
  by (simp add: HTTPListener_ServeHTTP_def httpService_ServeHTTP_empty_pool fail_def)

theorem ServeHTTP_404_503_witness:
  "HTTPListener_ServeHTTP example_lib 0 None ''0'' ''id''
     (snd (httpSyncHandler_Set no_keypair discoverd_up (example_route ''1'' ''a.com'' ''web'') (Start None)))
     (example_request ''GET'' ''b.com'' ''/'' []) =
     Inr (Failed \<lparr>StatusCode = 404, ContentLength = 9, Body = ''Not Found''\<rparr>) \<and>
   HTTPListener_ServeHTTP example_lib 0 None ''0'' ''id''
     (snd (httpSyncHandler_Set no_keypair discoverd_up (example_route ''1'' ''a.com'' ''web'') (Start None)))
     (example_request ''GET'' ''A.com'' ''/'' []) =
     Inr (Failed \<lparr>StatusCode = 503, ContentLength = 19, Body = ''Service Unavailable''\<rparr>)"
proof -
  let ?s = "snd (httpSyncHandler_Set no_keypair discoverd_up (example_route ''1'' ''a.com'' ''web'') (Start None))"
  let ?r = "\<lparr>Domain = ''a.com'', Service = ''web'', TLSCert = [], TLSKey = [], Sticky = False,
           addr = 0, keypair = None, service = 0\<rparr>"
  have miss: "findRouteForHost ?s (Host (example_request ''GET'' ''b.com'' ''/'' [])) = None"
    by (simp add: example_defs example_request_def eval_nat_numeral)
  have hit: "findRouteForHost ?s (Host (example_request ''GET'' ''A.com'' ''/'' [])) = Some ?r"
    by (simp add: example_defs example_request_def)
  have pool: "Addrs (ss (service_heap ?s (service ?r))) = []"
    by (simp add: example_defs)
  have "HTTPListener_ServeHTTP example_lib 0 None ''0'' ''id'' ?s (example_request ''GET'' ''b.com'' ''/'' []) =
      Inr (Failed (fail 404 ''Not Found''))"
    using ServeHTTP_404_503[of ?s "example_request ''GET'' ''b.com'' ''/'' []" example_lib 0 None "''0''" "''id''"]
      miss by blast
  moreover have "HTTPListener_ServeHTTP example_lib 0 None ''0'' ''id'' ?s (example_request ''GET'' ''A.com'' ''/'' []) =
      Inr (Failed (fail 503 ''Service Unavailable''))"
    using ServeHTTP_404_503[of ?s "example_request ''GET'' ''A.com'' ''/'' []" example_lib 0 None "''0''" "''id''"]
      hit pool by blast
  ultimately show ?thesis by (simp add: fail_def)
qed


section \<open>Properties of the management API's authentication\<close>

lemma parseBasicAuth_no_header:
  "Values_Get h ''Authorization'' = [] \<Longrightarrow> fst (snd (parseBasicAuth D h)) = []"
  by (simp add: parseBasicAuth_def eval_nat_numeral)

lemma password_check:
  "(length p \<noteq> length k \<or> ConstantTimeCompare p k \<noteq> 1) \<longleftrightarrow> p \<noteq> k"
  by (auto simp: ConstantTimeCompare_def)

lemma muxHandler_checked:
  assumes "URL_Path r \<noteq> ''/ping''" "Method r \<noteq> ''OPTIONS''"
  shows "muxHandler D corsHandler authKey r =
    (if (if fst (snd (parseBasicAuth D (Header r))) = [] \<and>
           Contains (Values_Get (Header r) ''Accept'') ''text/event-stream''
         then Values_Get (URL_Query r) ''key'' else fst (snd (parseBasicAuth D (Header r)))) \<noteq> authKey
     then Returned (WriteHeader 401 (corsHandler r None))
     else ServedByMain (corsHandler r None))"
  unfolding muxHandler_def Let_def password_check using assms by simp

text \<open>
  C9, as the code has it. The CORS handler is taken to write no status, or 200 on an
  \<open>OPTIONS\<close> request. A request to \<open>/ping\<close> or with method \<open>OPTIONS\<close> gets status 200 whatever
  its credentials. Any other request, when the configured key is not empty, is answered 401
  exactly when neither its basic-auth password is the key nor, that password being absent or
  empty and the \<open>Accept\<close> header naming \<open>text/event-stream\<close>, its \<open>key\<close> query parameter is the
  key; a request that is not answered 401 is handed to the main handler. A request without
  an \<open>Authorization\<close> header has the empty password.
\<close>

theorem muxHandler_auth:
  assumes "corsHandler r None = None \<or> (Method r = ''OPTIONS'' \<and> corsHandler r None = Some 200)"
  shows "(URL_Path r = ''/ping'' \<or> Method r = ''OPTIONS'' \<longrightarrow>
            muxHandler D corsHandler authKey r = Returned (Some 200)) \<and>
         (URL_Path r \<noteq> ''/ping'' \<and> Method r \<noteq> ''OPTIONS'' \<and> authKey \<noteq> [] \<longrightarrow>
            (muxHandler D corsHandler authKey r = Returned (Some 401) \<longleftrightarrow>
               \<not> (fst (snd (parseBasicAuth D (Header r))) = authKey \<or>
                  fst (snd (parseBasicAuth D (Header r))) = [] \<and>
                  Contains (Values_Get (Header r) ''Accept'') ''text/event-stream'' \<and>
                  Values_Get (URL_Query r) ''key'' = authKey)) \<and>
            (muxHandler D corsHandler authKey r \<noteq> Returned (Some 401) \<longrightarrow>
               muxHandler D corsHandler authKey r = ServedByMain None)) \<and>
         (Values_Get (Header r) ''Authorization'' = [] \<longrightarrow> fst (snd (parseBasicAuth D (Header r))) = [])"
proof (intro conjI impI)
  assume "URL_Path r = ''/ping'' \<or> Method r = ''OPTIONS''"
  then show "muxHandler D corsHandler authKey r = Returned (Some 200)"
    using assms by (auto simp: muxHandler_def WriteHeader_def)
next
  assume h: "URL_Path r \<noteq> ''/ping'' \<and> Method r \<noteq> ''OPTIONS'' \<and> authKey \<noteq> []"
  then have w: "corsHandler r None = None" using assms by auto
  show "muxHandler D corsHandler authKey r = Returned (Some 401) \<longleftrightarrow>
               \<not> (fst (snd (parseBasicAuth D (Header r))) = authKey \<or>
                  fst (snd (parseBasicAuth D (Header r))) = [] \<and>
                  Contains (Values_Get (Header r) ''Accept'') ''text/event-stream'' \<and>
                  Values_Get (URL_Query r) ''key'' = authKey)"
    using h w by (auto simp: muxHandler_checked WriteHeader_def)
  show "muxHandler D corsHandler authKey r = ServedByMain None"
    if "muxHandler D corsHandler authKey r \<noteq> Returned (Some 401)"
    using that h w by (auto simp: muxHandler_checked WriteHeader_def split: if_splits)
next
  assume "Values_Get (Header r) ''Authorization'' = []"
  then show "fst (snd (parseBasicAuth D (Header r))) = []" by (rule parseBasicAuth_no_header)
qed

lemmas mux_example_defs =
  muxHandler_def parseBasicAuth_def Values_Get_def example_cors_def example_lib_def
  example_request_def WriteHeader_def ConstantTimeCompare_def Let_def

theorem muxHandler_auth_witness:
  "muxHandler (base64_DecodeString example_lib) example_cors ''secret''
     (example_request ''GET'' ''controller'' ''/apps'' []) = Returned (Some 401) \<and>
   muxHandler (base64_DecodeString example_lib) example_cors ''secret''
     ((example_request ''GET'' ''controller'' ''/apps'' [])
        \<lparr>Header := [(''Authorization'', [''Basic :secret''])]\<rparr>) = ServedByMain None \<and>
   muxHandler (base64_DecodeString example_lib) example_cors ''secret''
     (example_request ''OPTIONS'' ''controller'' ''/apps'' []) = Returned (Some 200)"
proof -
  let ?D = "base64_DecodeString example_lib"
  let ?r0 = "example_request ''GET'' ''controller'' ''/apps'' []"
  let ?r1 = "?r0\<lparr>Header := [(''Authorization'', [''Basic :secret''])]\<rparr>"
  let ?r2 = "example_request ''OPTIONS'' ''controller'' ''/apps'' []"
  have c0: "example_cors ?r0 None = None \<or> (Method ?r0 = ''OPTIONS'' \<and> example_cors ?r0 None = Some 200)"
    and c1: "example_cors ?r1 None = None \<or> (Method ?r1 = ''OPTIONS'' \<and> example_cors ?r1 None = Some 200)"
    and c2: "example_cors ?r2 None = None \<or> (Method ?r2 = ''OPTIONS'' \<and> example_cors ?r2 None = Some 200)"
    by (simp_all add: example_cors_def example_request_def Values_Get_def)
  have g0: "URL_Path ?r0 \<noteq> ''/ping'' \<and> Method ?r0 \<noteq> ''OPTIONS'' \<and> ''secret'' \<noteq> []"
    and g1: "URL_Path ?r1 \<noteq> ''/ping'' \<and> Method ?r1 \<noteq> ''OPTIONS'' \<and> ''secret'' \<noteq> []"
    and g2: "URL_Path ?r2 = ''/ping'' \<or> Method ?r2 = ''OPTIONS''"
    by (simp_all add: example_request_def)
  have p0: "fst (snd (parseBasicAuth ?D (Header ?r0))) = []"
    and a0: "\<not> Contains (Values_Get (Header ?r0) ''Accept'') ''text/event-stream''"
    by (simp_all add: parseBasicAuth_def Values_Get_def example_request_def eval_nat_numeral)
  have p1: "fst (snd (parseBasicAuth ?D (Header ?r1))) = ''secret''"
    by (simp add: parseBasicAuth_def Values_Get_def example_request_def example_lib_def
        eval_nat_numeral Let_def)
  have "muxHandler ?D example_cors ''secret'' ?r0 = Returned (Some 401)"
    using muxHandler_auth[of example_cors ?r0 ?D "''secret''"] c0 g0 p0 a0 by auto
  moreover have "muxHandler ?D example_cors ''secret'' ?r1 = ServedByMain None"
    using muxHandler_auth[of example_cors ?r1 ?D "''secret''"] c1 g1 p1 by auto
  moreover have "muxHandler ?D example_cors ''secret'' ?r2 = Returned (Some 200)"
    using muxHandler_auth[of example_cors ?r2 ?D "''secret''"] c2 g2 by blast
  ultimately show ?thesis by simp
qed

text \<open>
  C9 as stated fails when no key is configured: with the empty key, a request that carries
  no credentials at all is not answered 401 but handed to the main handler.
\<close>

theorem muxHandler_empty_key_counterexample:
  "muxHandler (base64_DecodeString example_lib) example_cors []
     (example_request ''GET'' ''controller'' ''/apps'' []) = ServedByMain None"
  by (simp add: mux_example_defs eval_nat_numeral)

end
